theory Spec2Isabelle
  imports Main
begin

section \<open>Conversation synchronization engine of the chat client\<close>

text \<open>
  A shallow embedding of \<^verbatim>\<open>frontend/src/hooks/useAppState.tsx\<close> and of the typing
  handler of \<^verbatim>\<open>frontend/src/components/ChatArea.tsx\<close>.

  Conventions of the embedding.
  \<^item> A TypeScript \<^verbatim>\<open>Record<string, T>\<close> is a map \<open>string \<rightharpoonup> T\<close> over its own
    properties.  A read \<^verbatim>\<open>obj[key]\<close> of a key that is not an own property finds the
    member inherited from \<^verbatim>\<open>Object.prototype\<close> when the key names one
    (\<open>object_prototype\<close>); this is written out in \<open>markAsRead\<close>, in the cursor read of
    \<open>unreadCounts\<close> and in the updater of \<open>sendMessage\<close>.  The merge of fetched records
    and \<open>setTyping\<close> are defined for the targets on which the source returns: for a
    target that names an inherited member and has no own entry they throw a
    \<^verbatim>\<open>TypeError\<close> instead of storing the record or the name.
  \<^item> An optional field is an \<open>option\<close>; \<open>None\<close> stands for both \<^verbatim>\<open>undefined\<close> and
    \<^verbatim>\<open>null\<close>.  JavaScript truthiness is written out where the source tests it:
    the empty string is falsy, every array is truthy.
  \<^item> A React state setter applied to an updater function is the updater applied to
    the current state; an updater that throws stores nothing.  A value that a callback
    reads from its closure (not from the argument of an updater) is the value of the
    render that created the callback, and is passed to the definition explicitly where
    the callback awaits before it uses it.
  \<^item> Console output, the notification sound and the browser notification are values
    of type \<open>effect\<close>, listed in the order in which the source performs them.
\<close>

subsection \<open>Data model\<close>

record user =
  username :: string
  trackerIp :: string
  trackerPort :: int
  peerPort :: int
  webpeerIp :: string
  webpeerPort :: int
  token :: string

record peer =
  peer_username :: string
  peer_ip :: string
  peer_port :: int

record message =
  msg_from :: string
  msg_message :: string
  msg_time :: string
  msg_channel :: "string option"
  msg_sent :: "bool option"
  msg_reactions :: "(string \<times> string list) list option"

type_synonym store = "string \<rightharpoonup> message list"

datatype effect =
    ConsoleLog string
  | ConsoleWarn string
  | ConsoleError string
  | PlayNotificationSound
  | ShowBrowserNotification string string
  | UncaughtTypeError

text \<open>The sequence stored under an own key of the conversation store, empty without one.\<close>

definition seq_of :: "store \<Rightarrow> string \<Rightarrow> message list" where
  "seq_of s k = (case s k of None \<Rightarrow> [] | Some xs \<Rightarrow> xs)"

subsection \<open>Merging a fetched batch (the updater passed to \<open>setMessages\<close> while polling)\<close>

text \<open>\<^verbatim>\<open>!msg.channel\<close>: the field is missing, null or the empty string.\<close>

definition no_channel :: "message \<Rightarrow> bool" where
  "no_channel msg = (case msg_channel msg of None \<Rightarrow> True | Some c \<Rightarrow> c = [])"

text \<open>
  The classification of one record.  \<open>None\<close> is the \<^verbatim>\<open>return\<close> that leaves the
  \<^verbatim>\<open>forEach\<close> callback for a message of the current user.
\<close>

definition target_of :: "user \<Rightarrow> message \<Rightarrow> string option" where
  "target_of cu msg =
     (if msg_channel msg = Some ''direct'' \<or> no_channel msg then
        (if msg_from msg = username cu then None else Some (msg_from msg))
      else Some (case msg_channel msg of None \<Rightarrow> [] | Some c \<Rightarrow> c))"

text \<open>The comparison of \<^verbatim>\<open>findIndex\<close>: sender, body and timestamp.\<close>

definition same_message :: "message \<Rightarrow> message \<Rightarrow> bool" where
  "same_message msg m \<longleftrightarrow>
     msg_from m = msg_from msg \<and> msg_message m = msg_message msg \<and> msg_time m = msg_time msg"

text \<open>\<^verbatim>\<open>findIndex(...) === -1\<close> on a sequence.\<close>

definition not_found :: "message \<Rightarrow> message list \<Rightarrow> bool" where
  "not_found msg xs = (find (same_message msg) xs = None)"

text \<open>The object pushed for a new message.\<close>

definition stored_copy :: "user \<Rightarrow> message \<Rightarrow> message" where
  "stored_copy cu msg =
     \<lparr> msg_from = msg_from msg,
       msg_message = msg_message msg,
       msg_time = msg_time msg,
       msg_channel = msg_channel msg,
       msg_sent = Some (msg_from msg = username cu),
       msg_reactions = Some (case msg_reactions msg of None \<Rightarrow> [] | Some r \<Rightarrow> r) \<rparr>"

text \<open>
  The effects of a new message of another user; \<open>hidden\<close> is \<^verbatim>\<open>document.hidden\<close>.
\<close>

definition notify :: "user \<Rightarrow> bool \<Rightarrow> string \<Rightarrow> message \<Rightarrow> effect list" where
  "notify cu hidden target msg =
     (if msg_from msg \<noteq> username cu then
        PlayNotificationSound #
        (if hidden then
           (let isChannel = (\<not> no_channel msg \<and> msg_channel msg \<noteq> Some ''direct'');
                title = (if isChannel then CHR ''#'' # target else msg_from msg)
            in [ShowBrowserNotification title (msg_message msg)])
         else [])
      else [])"

text \<open>The body of the \<^verbatim>\<open>forEach\<close> callback, on the copy \<open>newMessages\<close>.\<close>

definition merge_message :: "user \<Rightarrow> bool \<Rightarrow> store \<Rightarrow> message \<Rightarrow> store \<times> effect list" where
  "merge_message cu hidden newMessages msg =
     (case target_of cu msg of
        None \<Rightarrow> (newMessages, [])
      | Some target \<Rightarrow>
          if target = [] then
            (newMessages, [ConsoleWarn ''Could not determine target for message:''])
          else
            let xs = seq_of newMessages target in
            if not_found msg xs then
              (newMessages(target \<mapsto> xs @ [stored_copy cu msg]), notify cu hidden target msg)
            else (newMessages(target \<mapsto> xs), []))"

text \<open>\<^verbatim>\<open>data.messages.forEach(...)\<close>, from the first record to the last.\<close>

fun merge_messages :: "user \<Rightarrow> bool \<Rightarrow> store \<Rightarrow> message list \<Rightarrow> store \<times> effect list" where
  "merge_messages cu hidden s [] = (s, [])"
| "merge_messages cu hidden s (msg # msgs) =
     (case merge_message cu hidden s msg of
        (s1, e1) \<Rightarrow>
          (case merge_messages cu hidden s1 msgs of
             (s2, e2) \<Rightarrow> (s2, e1 @ e2)))"

subsection \<open>Members inherited from \<open>Object.prototype\<close>\<close>

text \<open>
  The state objects are created by object literals, so each has \<^verbatim>\<open>Object.prototype\<close> as
  its prototype.  These are the members of that prototype in ECMAScript: functions, each
  with the value of its \<^verbatim>\<open>length\<close> property, and the accessor \<^verbatim>\<open>__proto__\<close>, which reads
  as the prototype object itself.  All of them are truthy, none of them is iterable or a
  number.
\<close>

datatype proto_member = ProtoFunction nat | ProtoObject

definition object_prototype :: "string \<rightharpoonup> proto_member" where
  "object_prototype =
     map_of [(''constructor'', ProtoFunction 1),
             (''__proto__'', ProtoObject),
             (''hasOwnProperty'', ProtoFunction 1),
             (''isPrototypeOf'', ProtoFunction 1),
             (''propertyIsEnumerable'', ProtoFunction 1),
             (''toLocaleString'', ProtoFunction 0),
             (''toString'', ProtoFunction 0),
             (''valueOf'', ProtoFunction 0),
             (''__defineGetter__'', ProtoFunction 2),
             (''__defineSetter__'', ProtoFunction 2),
             (''__lookupGetter__'', ProtoFunction 1),
             (''__lookupSetter__'', ProtoFunction 1)]"

subsection \<open>Application state\<close>

text \<open>
  The \<^verbatim>\<open>useState\<close> cells of \<^verbatim>\<open>AppStateProvider\<close>.  \<open>messagePollInterval\<close> holds the
  running polling interval, represented by the user its callback has captured.
\<close>

text \<open>
  A value stored in \<open>lastReadPositions\<close>: a number, or \<^verbatim>\<open>undefined\<close> where \<open>markAsRead\<close>
  has stored the \<^verbatim>\<open>length\<close> of an object that has none.
\<close>

datatype position = Position nat | Undefined

record app_state =
  currentUser :: "user option"
  channels :: "string list"
  peers :: "peer list"
  messages :: store
  lastReadPositions :: "string \<rightharpoonup> position"
  typingUsers :: "string \<rightharpoonup> string set"
  messagePollInterval :: "user option"

definition initial_state :: app_state where
  "initial_state =
     \<lparr> currentUser = None, channels = [], peers = [], messages = Map.empty,
       lastReadPositions = Map.empty, typingUsers = Map.empty, messagePollInterval = None \<rparr>"

datatype app_error = NotLoggedIn | RequestFailed | JoinFailed string | TypeError

text \<open>
  What an awaited request gives back: the promise rejects (also when the body is not
  JSON), or the body is read with its \<^verbatim>\<open>status\<close> and \<^verbatim>\<open>message\<close> fields.
\<close>

datatype reply = Rejected | Reply string "string option"

text \<open>The same for \<^verbatim>\<open>/get-messages\<close>, whose body carries \<^verbatim>\<open>status\<close> and \<^verbatim>\<open>messages\<close>.\<close>

datatype poll_reply = PollRejected | PollReply string "message list option"

subsection \<open>Unread counts\<close>

definition isSent :: "user option \<Rightarrow> message \<Rightarrow> bool" where
  "isSent cu msg \<longleftrightarrow>
     (case cu of None \<Rightarrow> False | Some u \<Rightarrow> msg_from msg = username u) \<or> msg_sent msg = Some True"

text \<open>
  \<^verbatim>\<open>lastReadPositions[target] || 0\<close> as a number.  \<open>None\<close>: the key is not an own property
  and names an inherited member, so the value is that member, and every comparison
  \<^verbatim>\<open>index >= lastRead\<close> with it is false.
\<close>

definition lastRead_of :: "(string \<rightharpoonup> position) \<Rightarrow> string \<Rightarrow> nat option" where
  "lastRead_of positions target =
     (case positions target of
        Some (Position n) \<Rightarrow> Some n
      | Some Undefined \<Rightarrow> Some 0
      | None \<Rightarrow> (case object_prototype target of None \<Rightarrow> Some 0 | Some member \<Rightarrow> None))"

definition unread_in :: "user option \<Rightarrow> nat option \<Rightarrow> message list \<Rightarrow> nat" where
  "unread_in cu lastRead targetMessages =
     length (filter (\<lambda>(index, msg). \<not> isSent cu msg \<and>
                        (case lastRead of None \<Rightarrow> False | Some c \<Rightarrow> c \<le> index))
                    (enumerate 0 targetMessages))"

text \<open>
  The memoised \<open>unreadCounts\<close>: one entry for each own key of \<open>messages\<close>.  The entry is
  written by the assignment \<^verbatim>\<open>counts[target] = unread\<close>, which for the key \<^verbatim>\<open>__proto__\<close>
  calls the inherited setter; the setter ignores a number, so no entry is stored.
\<close>

definition unreadCounts :: "app_state \<Rightarrow> string \<rightharpoonup> nat" where
  "unreadCounts st target =
     (case messages st target of
        None \<Rightarrow> None
      | Some targetMessages \<Rightarrow>
          if target = ''__proto__'' then None
          else Some (unread_in (currentUser st) (lastRead_of (lastReadPositions st) target)
                       targetMessages))"

subsection \<open>Operations of the provider\<close>

definition clearChat :: "app_state \<Rightarrow> string \<Rightarrow> app_state" where
  "clearChat st target =
     st\<lparr> messages := (messages st)(target \<mapsto> []),
         lastReadPositions := (lastReadPositions st)(target \<mapsto> Position 0) \<rparr>"

text \<open>
  \<^verbatim>\<open>(messages[target] || []).length\<close>: the length of the own sequence; without an own
  entry the \<^verbatim>\<open>length\<close> of the inherited member that the key names, or 0 from the empty
  array when it names none.
\<close>

definition read_length :: "store \<Rightarrow> string \<Rightarrow> position" where
  "read_length s target =
     (case s target of
        Some xs \<Rightarrow> Position (length xs)
      | None \<Rightarrow>
          (case object_prototype target of
             None \<Rightarrow> Position 0
           | Some (ProtoFunction n) \<Rightarrow> Position n
           | Some ProtoObject \<Rightarrow> Undefined))"

text \<open>
  \<open>markAsRead\<close>, called from the render of the state \<open>st\<close>: the \<open>messages\<close> of its
  closure are those of \<open>st\<close>, and it does not await.
\<close>

definition markAsRead :: "app_state \<Rightarrow> string \<Rightarrow> app_state" where
  "markAsRead st target =
     st\<lparr> lastReadPositions :=
           (lastReadPositions st)(target \<mapsto> read_length (messages st) target) \<rparr>"

definition logout :: "app_state \<Rightarrow> app_state" where
  "logout st =
     st\<lparr> currentUser := None, channels := [], peers := [], messages := Map.empty,
         lastReadPositions := Map.empty, typingUsers := Map.empty,
         messagePollInterval := None \<rparr>"

text \<open>
  \<open>registerPeer\<close> once both of its requests have succeeded, followed by the polling
  effect, which starts the interval for the new user.  \<open>u\<close> is the user object that the
  source builds from the form data.
\<close>

definition registerPeer :: "app_state \<Rightarrow> user \<Rightarrow> app_state" where
  "registerPeer st u = st\<lparr> currentUser := Some u, messagePollInterval := Some u \<rparr>"

text \<open>The updater of \<open>setTyping\<close> on the typing registry.\<close>

definition typing_update ::
  "user option \<Rightarrow> string \<Rightarrow> bool \<Rightarrow> (string \<rightharpoonup> string set) \<Rightarrow> (string \<rightharpoonup> string set)" where
  "typing_update cu target isTyping prev =
     (let name = (case cu of None \<Rightarrow> [] | Some u \<Rightarrow> username u);
          old = (case prev target of None \<Rightarrow> {} | Some names \<Rightarrow> names);
          new = (if isTyping then insert name old else old - {name})
      in if new = {} then prev(target := None) else prev(target \<mapsto> new))"

definition setTyping :: "app_state \<Rightarrow> string \<Rightarrow> bool \<Rightarrow> app_state" where
  "setTyping st target isTyping =
     st\<lparr> typingUsers := typing_update (currentUser st) target isTyping (typingUsers st) \<rparr>"




subsection \<open>Sending\<close>

text \<open>The message appended by \<open>sendMessage\<close>; \<open>now\<close> is \<^verbatim>\<open>new Date().toISOString()\<close>.\<close>

definition local_copy :: "user \<Rightarrow> string \<Rightarrow> string \<Rightarrow> message" where
  "local_copy cu now text =
     \<lparr> msg_from = username cu, msg_message = text, msg_time = now, msg_channel = None,
       msg_sent = Some True, msg_reactions = Some [] \<rparr>"

datatype request = SendPeer string string string | BroadcastPeer string string string

text \<open>
  The updater that \<open>sendMessage\<close> passes to \<open>setMessages\<close>.  \<^verbatim>\<open>prev[target] || []\<close> is the
  own sequence, or the empty array, or an inherited member; spreading an inherited
  member into the new array throws, since it is not iterable.
\<close>

definition append_local ::
  "user \<Rightarrow> string \<Rightarrow> string \<Rightarrow> string \<Rightarrow> store \<Rightarrow> app_error + store" where
  "append_local cu now text target prev =
     (case prev target of
        Some xs \<Rightarrow> Inr (prev(target \<mapsto> xs @ [local_copy cu now text]))
      | None \<Rightarrow>
          (case object_prototype target of
             None \<Rightarrow> Inr (prev(target \<mapsto> [local_copy cu now text]))
           | Some member \<Rightarrow> Inl TypeError))"

text \<open>
  \<open>sendMessage\<close> up to its \<^verbatim>\<open>await\<close>: the state after the append, the request that is
  then issued, and the effects so far.  When the updater throws, nothing is stored and
  React raises the error while rendering, outside \<open>sendMessage\<close>, which goes on to
  issue the request.
\<close>

definition sendMessage_issue ::
  "app_state \<Rightarrow> string \<Rightarrow> string \<Rightarrow> string \<Rightarrow> bool
     \<Rightarrow> app_error + app_state \<times> request \<times> effect list" where
  "sendMessage_issue st now text target isChannel =
     (case currentUser st of
        None \<Rightarrow> Inl NotLoggedIn
      | Some cu \<Rightarrow>
          let req = (if \<not> isChannel then SendPeer (username cu) target text
                     else BroadcastPeer (username cu) text target)
          in (case append_local cu now text target (messages st) of
                Inl e \<Rightarrow> Inr (st, req, [UncaughtTypeError])
              | Inr s \<Rightarrow> Inr (st\<lparr> messages := s \<rparr>, req, [])))"

text \<open>
  \<open>sendMessage\<close> after its \<^verbatim>\<open>await\<close>: \<open>Inl\<close> is the error thrown again by the
  \<^verbatim>\<open>catch\<close> block.
\<close>

definition sendMessage_settle :: "bool \<Rightarrow> reply \<Rightarrow> (app_error + unit) \<times> effect list" where
  "sendMessage_settle isChannel r =
     (case r of
        Rejected \<Rightarrow> (Inl RequestFailed, [ConsoleError ''Error sending message:''])
      | Reply status msg \<Rightarrow>
          if \<not> isChannel then
            (Inr (), if status \<noteq> ''success'' then [ConsoleError ''Failed to send P2P message:'']
                     else [])
          else
            (Inr (), if status = ''success'' then [ConsoleLog ''Broadcasted to peers'']
                     else [ConsoleError ''Failed to broadcast:'']))"

definition sendMessage ::
  "app_state \<Rightarrow> string \<Rightarrow> string \<Rightarrow> string \<Rightarrow> bool \<Rightarrow> reply
     \<Rightarrow> (app_error + unit) \<times> app_state \<times> effect list" where
  "sendMessage st now text target isChannel r =
     (case sendMessage_issue st now text target isChannel of
        Inl e \<Rightarrow> (Inl e, st, [])
      | Inr (st1, req, out1) \<Rightarrow>
          (case sendMessage_settle isChannel r of (res, out2) \<Rightarrow> (res, st1, out1 @ out2)))"

subsection \<open>One polling cycle\<close>

text \<open>
  The interval callback after its \<^verbatim>\<open>await\<close>, for the user \<open>cu\<close> captured when the
  interval was created.
\<close>

definition poll_settle :: "user \<Rightarrow> bool \<Rightarrow> poll_reply \<Rightarrow> app_state \<Rightarrow> app_state \<times> effect list" where
  "poll_settle cu hidden r st =
     (case r of
        PollRejected \<Rightarrow> (st, [ConsoleError ''Error polling messages:''])
      | PollReply status msgs \<Rightarrow>
          if status = ''success'' then
            (case msgs of
               None \<Rightarrow> (st, [])
             | Some batch \<Rightarrow>
                 (case merge_messages cu hidden (messages st) batch of
                    (s, out) \<Rightarrow> (st\<lparr> messages := s \<rparr>, out)))
          else (st, []))"

definition is_notification :: "effect \<Rightarrow> bool" where
  "is_notification e =
     (case e of PlayNotificationSound \<Rightarrow> True | ShowBrowserNotification t b \<Rightarrow> True | _ \<Rightarrow> False)"

subsection \<open>The polling loop and its requests in flight\<close>

text \<open>
  The interval callback is asynchronous: a tick issues the request and suspends, and
  the rest of the callback runs when the reply arrives, with the user the callback
  captured.  \<open>in_flight\<close> lists the suspended callbacks by that user.  Clearing the
  interval removes the timer and nothing else, the source keeps no flag or abort signal
  for a suspended callback.
\<close>

record runtime =
  provider :: app_state
  in_flight :: "user list"

datatype event =
    Register user
  | Tick
  | Arrive nat poll_reply bool
  | Logout

fun step :: "runtime \<Rightarrow> event \<Rightarrow> runtime" where
  "step w (Register u) = w\<lparr> provider := registerPeer (provider w) u \<rparr>"
| "step w Tick =
     (case messagePollInterval (provider w) of
        None \<Rightarrow> w
      | Some cu \<Rightarrow> w\<lparr> in_flight := in_flight w @ [cu] \<rparr>)"
| "step w (Arrive i r hidden) =
     (if i < length (in_flight w) then
        w\<lparr> provider := fst (poll_settle (in_flight w ! i) hidden r (provider w)),
           in_flight := take i (in_flight w) @ drop (Suc i) (in_flight w) \<rparr>
      else w)"
| "step w Logout = w\<lparr> provider := logout (provider w) \<rparr>"

definition run :: "runtime \<Rightarrow> event list \<Rightarrow> runtime" where
  "run w evs = foldl step w evs"

definition boot :: runtime where
  "boot = \<lparr> provider = initial_state, in_flight = [] \<rparr>"

fun is_register :: "event \<Rightarrow> bool" where
  "is_register (Register u) = True"
| "is_register e = False"

subsection \<open>The typing handler of the chat area\<close>






subsection \<open>Example values\<close>

definition alice :: user where
  "alice = \<lparr> username = ''alice'', trackerIp = ''127.0.0.1'', trackerPort = 8001,
             peerPort = 9100, webpeerIp = ''127.0.0.1'', webpeerPort = 8002, token = [] \<rparr>"

definition bob :: user where
  "bob = \<lparr> username = ''bob'', trackerIp = ''127.0.0.1'', trackerPort = 8001,
           peerPort = 9101, webpeerIp = ''127.0.0.1'', webpeerPort = 8002, token = [] \<rparr>"

definition inbound :: "string \<Rightarrow> string \<Rightarrow> string \<Rightarrow> string option \<Rightarrow> message" where
  "inbound sender body t ch =
     \<lparr> msg_from = sender, msg_message = body, msg_time = t, msg_channel = ch,
       msg_sent = None, msg_reactions = None \<rparr>"

definition chat_state :: app_state where
  "chat_state =
     initial_state\<lparr> currentUser := Some alice, channels := [''general''],
       messages := [''general'' \<mapsto> [stored_copy alice (inbound ''carol'' ''yo'' ''T3'' (Some ''general''))]],
       lastReadPositions := [''general'' \<mapsto> Position 1], messagePollInterval := Some alice \<rparr>"

text \<open>
  The state after alice has sent \<open>hi\<close> to bob and a poll has returned bob's reply.
\<close>

definition exchange_state :: app_state where
  "exchange_state =
     fst (poll_settle alice False
            (PollReply ''success'' (Some [inbound ''bob'' ''hey'' ''T1'' None]))
            (fst (snd (sendMessage (registerPeer initial_state alice) ''T0'' ''hi'' ''bob'' False
                         (Reply ''success'' None)))))"

subsection \<open>Invariants used in the proofs\<close>

text \<open>
  A record is settled in a store when merging it changes nothing: it is skipped, or its
  target has a sequence that already holds a message with its sender, body and time.
\<close>

definition settled :: "user \<Rightarrow> store \<Rightarrow> message \<Rightarrow> bool" where
  "settled cu s msg =
     (case target_of cu msg of
        None \<Rightarrow> True
      | Some t \<Rightarrow> t = [] \<or> (s t \<noteq> None \<and> \<not> not_found msg (seq_of s t)))"

section \<open>Properties\<close>

subsection \<open>Merging\<close>

lemma merge_messages_append:
  "merge_messages cu hidden s (as @ bs) =
     (case merge_messages cu hidden s as of
        (s1, e1) \<Rightarrow> (case merge_messages cu hidden s1 bs of (s2, e2) \<Rightarrow> (s2, e1 @ e2)))"
  by (induction as arbitrary: s) (auto split: prod.splits)

text \<open>
  Claim C3.  A fetched record whose channel tag is absent or \<open>direct\<close> and whose sender
  is the local user is skipped: the loop body returns the store as it was with no
  effect, so a batch merges exactly as the batch without that record.
\<close>

theorem self_skip:
  assumes "msg_channel msg = None \<or> msg_channel msg = Some ''direct''"
    and "msg_from msg = username cu"
  shows "merge_message cu hidden s msg = (s, []) \<and>
         merge_messages cu hidden s (before @ msg # after) =
           merge_messages cu hidden s (before @ after)"
proof -
  from assms have one: "merge_message cu hidden t msg = (t, [])" for t
    by (auto simp: merge_message_def target_of_def no_channel_def)
  show ?thesis
    by (simp add: one merge_messages_append split: prod.splits)
qed

theorem self_skip_witness:
  "(msg_channel (inbound ''alice'' ''hi'' ''T1'' (Some ''direct'')) = None \<or>
    msg_channel (inbound ''alice'' ''hi'' ''T1'' (Some ''direct'')) = Some ''direct'') \<and>
   msg_from (inbound ''alice'' ''hi'' ''T1'' (Some ''direct'')) = username alice \<and>
   merge_message alice False Map.empty (inbound ''alice'' ''hi'' ''T1'' (Some ''direct''))
     = (Map.empty, []) \<and>
   merge_messages alice False Map.empty
       ([] @ inbound ''alice'' ''hi'' ''T1'' (Some ''direct'') # [inbound ''bob'' ''hey'' ''T2'' None])
     = merge_messages alice False Map.empty ([] @ [inbound ''bob'' ''hey'' ''T2'' None])"
  using self_skip [of "inbound ''alice'' ''hi'' ''T1'' (Some ''direct'')" alice False
      Map.empty "[]" "[inbound ''bob'' ''hey'' ''T2'' None]"]
  by (simp add: inbound_def alice_def)

text \<open>
  Claim C7.  A fetched record with a channel tag other than \<open>direct\<close> (a tag that the
  source's truthiness test accepts, so not the empty string) changes the store at the
  channel tag only: every other key keeps its entry, the sequence of the tag stays or
  gains the one stored copy at its end, and the entry of the sender, a key different from
  the tag, is untouched.
\<close>

theorem channel_frame:
  assumes "msg_channel msg = Some c" and "c \<noteq> []" and "c \<noteq> ''direct''"
  shows "(\<forall>key. key \<noteq> c \<longrightarrow> fst (merge_message cu hidden s msg) key = s key) \<and>
         (seq_of (fst (merge_message cu hidden s msg)) c = seq_of s c \<or>
          seq_of (fst (merge_message cu hidden s msg)) c = seq_of s c @ [stored_copy cu msg]) \<and>
         (msg_from msg \<noteq> c \<longrightarrow>
            fst (merge_message cu hidden s msg) (msg_from msg) = s (msg_from msg))"
  using assms
  by (auto simp: merge_message_def target_of_def no_channel_def seq_of_def Let_def)

theorem channel_frame_witness:
  "msg_channel (inbound ''carol'' ''yo'' ''T3'' (Some ''general'')) = Some ''general'' \<and>
   ''general'' \<noteq> [] \<and> ''general'' \<noteq> ''direct'' \<and>
   fst (merge_message alice False Map.empty (inbound ''carol'' ''yo'' ''T3'' (Some ''general''))) ''carol''
        = None \<and>
   seq_of (fst (merge_message alice False Map.empty (inbound ''carol'' ''yo'' ''T3'' (Some ''general''))))
        ''general''
     = [stored_copy alice (inbound ''carol'' ''yo'' ''T3'' (Some ''general''))]"
  using channel_frame [of "inbound ''carol'' ''yo'' ''T3'' (Some ''general'')" "''general''"
      alice False Map.empty]
  by (simp add: inbound_def merge_message_def target_of_def no_channel_def seq_of_def
        not_found_def)

subsection \<open>Idempotence of the merge\<close>

lemma not_found_iff: "not_found msg xs \<longleftrightarrow> (\<forall>m \<in> set xs. \<not> same_message msg m)"
  by (auto simp: not_found_def find_None_iff)

lemma same_message_stored_copy: "same_message msg (stored_copy cu msg)"
  by (simp add: same_message_def stored_copy_def)

lemma fst_merge_messages_Cons:
  "fst (merge_messages cu hidden s (msg # batch)) =
     fst (merge_messages cu hidden (fst (merge_message cu hidden s msg)) batch)"
  by (cases "merge_message cu hidden s msg") (simp split: prod.splits)

lemma settled_merge_id: "settled cu s msg \<Longrightarrow> fst (merge_message cu hidden s msg) = s"
  by (auto simp: settled_def merge_message_def seq_of_def Let_def fun_upd_idem
           split: option.splits)

lemma merge_settles: "settled cu (fst (merge_message cu hidden s msg)) msg"
  using same_message_stored_copy [of msg cu]
  by (auto simp: settled_def merge_message_def seq_of_def Let_def not_found_iff
           split: option.splits)

lemma merge_keeps_settled:
  "settled cu s m \<Longrightarrow> settled cu (fst (merge_message cu hidden s msg)) m"
  by (auto simp: settled_def merge_message_def seq_of_def Let_def not_found_iff
           split: option.splits)

lemma batch_keeps_settled:
  "settled cu s m \<Longrightarrow> settled cu (fst (merge_messages cu hidden s batch)) m"
proof (induction batch arbitrary: s)
  case Nil
  then show ?case by simp
next
  case (Cons msg batch)
  from Cons.prems have "settled cu (fst (merge_message cu hidden s msg)) m"
    by (rule merge_keeps_settled)
  then have "settled cu (fst (merge_messages cu hidden (fst (merge_message cu hidden s msg)) batch)) m"
    by (rule Cons.IH)
  then show ?case by (simp only: fst_merge_messages_Cons)
qed

lemma batch_settles:
  "m \<in> set batch \<Longrightarrow> settled cu (fst (merge_messages cu hidden s batch)) m"
proof (induction batch arbitrary: s)
  case Nil
  then show ?case by simp
next
  case (Cons msg batch)
  let ?s1 = "fst (merge_message cu hidden s msg)"
  have unroll: "fst (merge_messages cu hidden s (msg # batch)) = fst (merge_messages cu hidden ?s1 batch)"
    by (rule fst_merge_messages_Cons)
  show ?case
  proof (cases "m = msg")
    case True
    have "settled cu ?s1 msg" by (rule merge_settles)
    then show ?thesis unfolding unroll True by (rule batch_keeps_settled)
  next
    case False
    with Cons.prems have "m \<in> set batch" by simp
    then show ?thesis unfolding unroll by (rule Cons.IH)
  qed
qed

lemma all_settled_id:
  "(\<And>m. m \<in> set batch \<Longrightarrow> settled cu s m) \<Longrightarrow> fst (merge_messages cu hidden s batch) = s"
proof (induction batch)
  case Nil
  then show ?case by simp
next
  case (Cons msg batch)
  have "fst (merge_message cu hidden s msg) = s"
    by (rule settled_merge_id) (simp add: Cons.prems)
  moreover have "fst (merge_messages cu hidden s batch) = s"
    by (rule Cons.IH) (simp add: Cons.prems)
  ultimately show ?case by (simp only: fst_merge_messages_Cons)
qed

lemma duplicate_discarded:
  assumes "target_of cu msg = Some t" and "s t = Some xs" and "m \<in> set xs"
    and "same_message msg m"
  shows "fst (merge_message cu hidden s msg) = s \<and>
         filter is_notification (snd (merge_message cu hidden s msg)) = []"
proof -
  from assms have "settled cu s msg"
    by (auto simp: settled_def seq_of_def not_found_iff)
  then have "fst (merge_message cu hidden s msg) = s" by (rule settled_merge_id)
  moreover from assms have "filter is_notification (snd (merge_message cu hidden s msg)) = []"
    by (auto simp: merge_message_def seq_of_def not_found_iff Let_def is_notification_def)
  ultimately show ?thesis by simp
qed

text \<open>
  Claim C1.  Merging a fetched batch is idempotent: for every local user, store and
  batch, merging the batch into the result of merging it gives that result again, key
  by key.  A record is recognised by its sender, body and time: when the sequence of its
  target already holds a message with these three, the record is discarded, the store
  stays as it is and no notification is raised.
\<close>

theorem merge_idempotent:
  "fst (merge_messages cu hidden (fst (merge_messages cu hidden s batch)) batch)
     = fst (merge_messages cu hidden s batch) \<and>
   (target_of cu msg = Some t \<and> s0 t = Some xs \<and> m \<in> set xs \<and>
    msg_from m = msg_from msg \<and> msg_message m = msg_message msg \<and> msg_time m = msg_time msg \<longrightarrow>
      fst (merge_message cu hidden s0 msg) = s0 \<and>
      filter is_notification (snd (merge_message cu hidden s0 msg)) = [])"
proof -
  have "fst (merge_messages cu hidden (fst (merge_messages cu hidden s batch)) batch)
     = fst (merge_messages cu hidden s batch)"
    by (rule all_settled_id) (rule batch_settles)
  moreover have "target_of cu msg = Some t \<and> s0 t = Some xs \<and> m \<in> set xs \<and>
    msg_from m = msg_from msg \<and> msg_message m = msg_message msg \<and> msg_time m = msg_time msg \<longrightarrow>
      fst (merge_message cu hidden s0 msg) = s0 \<and>
      filter is_notification (snd (merge_message cu hidden s0 msg)) = []"
    using duplicate_discarded [of cu msg t s0 xs m hidden]
    by (simp add: same_message_def)
  ultimately show ?thesis by simp
qed

theorem merge_idempotent_witness:
  "fst (merge_messages alice False
          (fst (merge_messages alice False Map.empty [inbound ''bob'' ''hey'' ''T1'' None]))
          [inbound ''bob'' ''hey'' ''T1'' None])
     = fst (merge_messages alice False Map.empty [inbound ''bob'' ''hey'' ''T1'' None]) \<and>
   fst (merge_messages alice False Map.empty [inbound ''bob'' ''hey'' ''T1'' None]) ''bob''
     = Some [stored_copy alice (inbound ''bob'' ''hey'' ''T1'' None)] \<and>
   target_of alice (inbound ''bob'' ''hey'' ''T1'' None) = Some ''bob'' \<and>
   merge_message alice False [''bob'' \<mapsto> [stored_copy alice (inbound ''bob'' ''hey'' ''T1'' None)]]
       (inbound ''bob'' ''hey'' ''T1'' None)
     = ([''bob'' \<mapsto> [stored_copy alice (inbound ''bob'' ''hey'' ''T1'' None)]], [])"
  using merge_idempotent [of alice False Map.empty "[inbound ''bob'' ''hey'' ''T1'' None]"
      "inbound ''bob'' ''hey'' ''T1'' None" "''bob''"
      "[''bob'' \<mapsto> [stored_copy alice (inbound ''bob'' ''hey'' ''T1'' None)]]"
      "[stored_copy alice (inbound ''bob'' ''hey'' ''T1'' None)]"
      "stored_copy alice (inbound ''bob'' ''hey'' ''T1'' None)"]
  by (simp add: merge_message_def target_of_def no_channel_def seq_of_def not_found_def
        inbound_def alice_def stored_copy_def same_message_def)

subsection \<open>A failed polling cycle\<close>

text \<open>
  Claim C5.  When the request of a polling cycle is rejected, or its reply carries a
  status other than \<open>success\<close>, the cycle returns the state it found, so the conversation
  store, the read positions and the unread counts are those of before, and none of its
  effects is a notification sound or a browser notification.
\<close>

theorem failed_poll_noop:
  assumes "r = PollRejected \<or> (\<exists>status msgs. r = PollReply status msgs \<and> status \<noteq> ''success'')"
  shows "fst (poll_settle cu hidden r st) = st \<and>
         messages (fst (poll_settle cu hidden r st)) = messages st \<and>
         lastReadPositions (fst (poll_settle cu hidden r st)) = lastReadPositions st \<and>
         unreadCounts (fst (poll_settle cu hidden r st)) = unreadCounts st \<and>
         filter is_notification (snd (poll_settle cu hidden r st)) = []"
proof -
  from assms have "fst (poll_settle cu hidden r st) = st"
    by (auto simp: poll_settle_def)
  moreover from assms have "filter is_notification (snd (poll_settle cu hidden r st)) = []"
    by (auto simp: poll_settle_def is_notification_def)
  ultimately show ?thesis by simp
qed

theorem failed_poll_noop_witness:
  "(PollReply ''error'' (Some [inbound ''bob'' ''hey'' ''T1'' None]) = PollRejected \<or>
    (\<exists>status msgs. PollReply ''error'' (Some [inbound ''bob'' ''hey'' ''T1'' None])
        = PollReply status msgs \<and> status \<noteq> ''success'')) \<and>
   fst (poll_settle alice True (PollReply ''error'' (Some [inbound ''bob'' ''hey'' ''T1'' None]))
          chat_state) = chat_state \<and>
   snd (poll_settle alice True (PollReply ''error'' (Some [inbound ''bob'' ''hey'' ''T1'' None]))
          chat_state) = [] \<and>
   fst (poll_settle alice True PollRejected chat_state) = chat_state"
  using failed_poll_noop [of "PollReply ''error'' (Some [inbound ''bob'' ''hey'' ''T1'' None])"
      alice True chat_state]
    failed_poll_noop [of PollRejected alice True chat_state]
  by (simp add: poll_settle_def)

subsection \<open>The typing registry\<close>

lemma typing_update_nonempty:
  "\<forall>key. reg key \<noteq> Some {} \<Longrightarrow> typing_update cu target isTyping reg key \<noteq> Some {}"
  by (auto simp: typing_update_def Let_def)

lemma typing_calls_nonempty:
  "\<forall>key. reg key \<noteq> Some {} \<Longrightarrow>
   foldl (\<lambda>r (cu, target, isTyping). typing_update cu target isTyping r) reg calls key \<noteq> Some {}"
proof (induction calls arbitrary: reg key)
  case Nil
  then show ?case by simp
next
  case (Cons c calls)
  obtain cu target isTyping where c: "c = (cu, target, isTyping)"
    by (cases c) auto
  have "\<forall>key. typing_update cu target isTyping reg key \<noteq> Some {}"
    using Cons.prems by (simp add: typing_update_nonempty)
  then show ?case
    unfolding c by (simp add: Cons.IH)
qed

text \<open>
  Claim C8.  No key of the typing registry maps to the empty set: this holds of the
  registry after any sequence of \<open>setTyping\<close> calls from the empty registry, each call
  preserves it, \<open>setTyping\<close> with \<open>isTyping = false\<close> on an absent key gives back the
  registry unchanged, and logout leaves the empty registry.
\<close>

theorem typing_never_empty:
  "(\<forall>key. foldl (\<lambda>r (cu, target, isTyping). typing_update cu target isTyping r)
             Map.empty calls key \<noteq> Some {}) \<and>
   ((\<forall>key. typingUsers st key \<noteq> Some {}) \<longrightarrow>
      (\<forall>key. typingUsers (setTyping st target isTyping) key \<noteq> Some {})) \<and>
   (typingUsers st target = None \<longrightarrow> typingUsers (setTyping st target False) = typingUsers st) \<and>
   (\<forall>key. typingUsers (logout st) key \<noteq> Some {})"
proof -
  have a: "\<forall>key. foldl (\<lambda>r (cu, target, isTyping). typing_update cu target isTyping r)
             Map.empty calls key \<noteq> Some {}"
    by (simp add: typing_calls_nonempty)
  have b: "(\<forall>key. typingUsers st key \<noteq> Some {}) \<longrightarrow>
      (\<forall>key. typingUsers (setTyping st target isTyping) key \<noteq> Some {})"
    by (simp add: setTyping_def typing_update_nonempty)
  have c: "typingUsers st target = None \<longrightarrow>
      typingUsers (setTyping st target False) = typingUsers st"
    by (auto simp: setTyping_def typing_update_def)
  have d: "\<forall>key. typingUsers (logout st) key \<noteq> Some {}"
    by (simp add: logout_def)
  from a b c d show ?thesis by blast
qed

theorem typing_never_empty_witness:
  "(\<forall>key. typingUsers (setTyping chat_state ''bob'' True) key \<noteq> Some {}) \<and>
   typingUsers (setTyping chat_state ''bob'' True) ''bob'' = Some {''alice''} \<and>
   (\<forall>key. typingUsers (setTyping (setTyping chat_state ''bob'' True) ''bob'' False) key \<noteq> Some {}) \<and>
   typingUsers (setTyping (setTyping chat_state ''bob'' True) ''bob'' False) ''bob'' = None \<and>
   typingUsers chat_state ''bob'' = None \<and>
   typingUsers (setTyping chat_state ''bob'' False) = typingUsers chat_state"
  using typing_never_empty [of "[(Some alice, ''bob'', True), (Some alice, ''bob'', False)]"
      "setTyping chat_state ''bob'' True" "''bob''" False]
    typing_never_empty [of "[]" chat_state "''bob''" False]
  by (simp add: setTyping_def typing_update_def chat_state_def initial_state_def alice_def)

subsection \<open>Joining a channel\<close>




subsection \<open>Sending\<close>

text \<open>
  Claim C6, as the source has it.  With a user present and a target that has a sequence
  or does not name an inherited member, \<open>sendMessage\<close> appends the message of the local
  user, with the text as its body and the sent flag set, and the request is issued from
  the state that already holds it; the state keeps the message whatever the reply is.
  When the request is rejected, the error is logged and thrown again to the caller.  When
  the service replies with a status other than \<open>success\<close>, the failure is logged and
  \<open>sendMessage\<close> returns normally.
\<close>

theorem optimistic_send:
  assumes "currentUser st = Some cu"
    and "messages st target \<noteq> None \<or> object_prototype target = None"
  shows "sendMessage_issue st now text target isChannel =
           Inr (st\<lparr> messages := (messages st)(target \<mapsto>
                     seq_of (messages st) target @ [local_copy cu now text]) \<rparr>,
                if \<not> isChannel then SendPeer (username cu) target text
                else BroadcastPeer (username cu) text target,
                []) \<and>
         msg_from (local_copy cu now text) = username cu \<and>
         msg_message (local_copy cu now text) = text \<and>
         msg_sent (local_copy cu now text) = Some True \<and>
         sendMessage st now text target isChannel Rejected =
           (Inl RequestFailed,
            st\<lparr> messages := (messages st)(target \<mapsto>
                     seq_of (messages st) target @ [local_copy cu now text]) \<rparr>,
            [ConsoleError ''Error sending message:'']) \<and>
         (status \<noteq> ''success'' \<longrightarrow>
            sendMessage st now text target isChannel (Reply status info) =
              (Inr (),
               st\<lparr> messages := (messages st)(target \<mapsto>
                        seq_of (messages st) target @ [local_copy cu now text]) \<rparr>,
               [ConsoleError (if isChannel then ''Failed to broadcast:''
                              else ''Failed to send P2P message:'')])) \<and>
         sendMessage st now text target isChannel (Reply ''success'' info) =
           (Inr (),
            st\<lparr> messages := (messages st)(target \<mapsto>
                     seq_of (messages st) target @ [local_copy cu now text]) \<rparr>,
            if isChannel then [ConsoleLog ''Broadcasted to peers''] else [])"
proof -
  from assms(2) have upd: "append_local cu now text target (messages st) =
      Inr ((messages st)(target \<mapsto> seq_of (messages st) target @ [local_copy cu now text]))"
    by (auto simp: append_local_def seq_of_def split: option.splits)
  from assms(1) upd show ?thesis
    by (simp add: sendMessage_def sendMessage_issue_def sendMessage_settle_def local_copy_def
          Let_def)
qed

theorem optimistic_send_witness:
  "currentUser (registerPeer initial_state alice) = Some alice \<and>
   object_prototype ''bob'' = None \<and>
   sendMessage_issue (registerPeer initial_state alice) ''T0'' ''hi'' ''bob'' False =
     Inr ((registerPeer initial_state alice)\<lparr> messages := [''bob'' \<mapsto> [local_copy alice ''T0'' ''hi'']] \<rparr>,
          SendPeer ''alice'' ''bob'' ''hi'', []) \<and>
   sendMessage (registerPeer initial_state alice) ''T0'' ''hi'' ''bob'' False Rejected =
     (Inl RequestFailed,
      (registerPeer initial_state alice)\<lparr> messages := [''bob'' \<mapsto> [local_copy alice ''T0'' ''hi'']] \<rparr>,
      [ConsoleError ''Error sending message:'']) \<and>
   ''error'' \<noteq> ''success'' \<and>
   sendMessage (registerPeer initial_state alice) ''T0'' ''hi'' ''bob'' False (Reply ''error'' None) =
     (Inr (),
      (registerPeer initial_state alice)\<lparr> messages := [''bob'' \<mapsto> [local_copy alice ''T0'' ''hi'']] \<rparr>,
      [ConsoleError ''Failed to send P2P message:''])"
proof -
  have p: "object_prototype ''bob'' = None"
    by (simp add: object_prototype_def)
  have u: "currentUser (registerPeer initial_state alice) = Some alice"
    by (simp add: registerPeer_def)
  have m: "seq_of (messages (registerPeer initial_state alice)) ''bob'' = []"
    by (simp add: registerPeer_def initial_state_def seq_of_def)
  have e: "messages (registerPeer initial_state alice) = Map.empty"
    by (simp add: registerPeer_def initial_state_def)
  from optimistic_send [of "registerPeer initial_state alice" alice "''bob''" "''T0''" "''hi''"
      False "''error''" None] p u m e
  show ?thesis by (simp add: alice_def)
qed

text \<open>
  Claim C6, as it is stated, fails.  A reply that reports a failure, to a direct message
  or to a broadcast, is logged and nothing is thrown to the caller.  For the target
  \<open>constructor\<close> without a sequence the updater throws and no local copy is stored.
\<close>

theorem send_failure_counterexample:
  "sendMessage (registerPeer initial_state alice) ''T0'' ''hi'' ''bob'' False (Reply ''error'' None) =
     (Inr (),
      (registerPeer initial_state alice)\<lparr> messages := [''bob'' \<mapsto> [local_copy alice ''T0'' ''hi'']] \<rparr>,
      [ConsoleError ''Failed to send P2P message:'']) \<and>
   sendMessage (registerPeer initial_state alice) ''T0'' ''hi'' ''general'' True (Reply ''error'' None) =
     (Inr (),
      (registerPeer initial_state alice)\<lparr> messages := [''general'' \<mapsto> [local_copy alice ''T0'' ''hi'']] \<rparr>,
      [ConsoleError ''Failed to broadcast:'']) \<and>
   sendMessage (registerPeer initial_state alice) ''T0'' ''hi'' ''constructor'' False
       (Reply ''success'' None) =
     (Inr (), registerPeer initial_state alice, [UncaughtTypeError])"
  by (simp add: sendMessage_def sendMessage_issue_def sendMessage_settle_def append_local_def
        object_prototype_def registerPeer_def initial_state_def alice_def Let_def)

subsection \<open>Unread counts\<close>

lemma unread_in_drop_from:
  "length (filter (\<lambda>(index, msg). P msg \<and> c \<le> index) (enumerate n xs))
     = length (filter P (drop (c - n) xs))"
proof (induction xs arbitrary: n)
  case Nil
  then show ?case by simp
next
  case (Cons x xs)
  show ?case
  proof (cases "c \<le> n")
    case True
    then have "c - n = 0" "c - Suc n = 0" "c \<le> Suc n" by simp_all
    with Cons[of "Suc n"] True show ?thesis by simp
  next
    case False
    then have "c - n = Suc (c - Suc n)" by simp
    with Cons[of "Suc n"] False show ?thesis by simp
  qed
qed

lemma unread_in_drop:
  "unread_in cu (Some c) xs = length (filter (\<lambda>m. \<not> isSent cu m) (drop c xs))"
  using unread_in_drop_from [of "\<lambda>m. \<not> isSent cu m" c 0 xs]
  by (simp add: unread_in_def)

lemma filter_cong_set: "(\<And>x. x \<in> set xs \<Longrightarrow> P x = Q x) \<Longrightarrow> filter P xs = filter Q xs"
  by (induction xs) auto

lemma proto_member_accessor: "object_prototype ''__proto__'' = Some ProtoObject"
  by (simp add: object_prototype_def)

lemma proto_key_not_member: "object_prototype key = None \<Longrightarrow> key \<noteq> ''__proto__''"
  using proto_member_accessor by auto

lemma lastRead_of_own:
  "object_prototype key = None \<Longrightarrow>
   lastRead_of positions key =
     Some (case positions key of Some (Position n) \<Rightarrow> n | Some Undefined \<Rightarrow> 0 | None \<Rightarrow> 0)"
  by (simp add: lastRead_of_def split: option.splits position.splits)

text \<open>
  Claim C4, as the source has it, for a key that does not name an inherited member.  In
  every state the unread count of a key of the store is the number of messages at or
  after the cursor of the key that are neither from the local user nor flagged as sent;
  where every flagged message of the sequence is from the local user, this is the
  number of messages at or after the cursor whose sender is not the local user.  A key
  without a sequence has no count.  The count is computed from the sequence, the cursor
  and the user; the state stores no counter.  \<open>markAsRead\<close> sets the cursor of the key
  to the length of its sequence and leaves the store as it is, and the unread count of
  the key is then 0.
\<close>

theorem unread_derived:
  "(object_prototype key = None \<and> messages st key = Some xs \<and> currentUser st = Some cu \<longrightarrow>
      unreadCounts st key =
        Some (length (filter (\<lambda>m. msg_from m \<noteq> username cu \<and> msg_sent m \<noteq> Some True)
                (drop (case lastReadPositions st key of
                         Some (Position n) \<Rightarrow> n | Some Undefined \<Rightarrow> 0 | None \<Rightarrow> 0) xs)))) \<and>
   (object_prototype key = None \<and> messages st key = Some xs \<and> currentUser st = None \<longrightarrow>
      unreadCounts st key =
        Some (length (filter (\<lambda>m. msg_sent m \<noteq> Some True)
                (drop (case lastReadPositions st key of
                         Some (Position n) \<Rightarrow> n | Some Undefined \<Rightarrow> 0 | None \<Rightarrow> 0) xs)))) \<and>
   (object_prototype key = None \<and> messages st key = Some xs \<and> currentUser st = Some cu \<and>
    (\<forall>m \<in> set xs. msg_sent m = Some True \<longrightarrow> msg_from m = username cu) \<longrightarrow>
      unreadCounts st key =
        Some (length (filter (\<lambda>m. msg_from m \<noteq> username cu)
                (drop (case lastReadPositions st key of
                         Some (Position n) \<Rightarrow> n | Some Undefined \<Rightarrow> 0 | None \<Rightarrow> 0) xs)))) \<and>
   (messages st key = None \<longrightarrow> unreadCounts st key = None) \<and>
   (object_prototype key = None \<longrightarrow>
      markAsRead st key =
        st\<lparr> lastReadPositions :=
              (lastReadPositions st)(key \<mapsto> Position (length (seq_of (messages st) key))) \<rparr> \<and>
      unreadCounts (markAsRead st key) key =
        (case messages st key of None \<Rightarrow> None | Some ys \<Rightarrow> Some 0))"
proof -
  let ?c = "case lastReadPositions st key of
              Some (Position n) \<Rightarrow> n | Some Undefined \<Rightarrow> 0 | None \<Rightarrow> 0"
  have count: "unreadCounts st key =
        Some (length (filter (\<lambda>m. \<not> isSent (currentUser st) m) (drop ?c xs)))"
    if "object_prototype key = None" and "messages st key = Some xs"
    using that proto_key_not_member [of key]
    by (simp add: unreadCounts_def lastRead_of_own unread_in_drop)
  have a: "unreadCounts st key =
        Some (length (filter (\<lambda>m. msg_from m \<noteq> username cu \<and> msg_sent m \<noteq> Some True)
                (drop ?c xs)))"
    if "object_prototype key = None" and "messages st key = Some xs" and "currentUser st = Some cu"
    using count [OF that(1,2)] that(3) by (simp add: isSent_def)
  have a': "unreadCounts st key =
        Some (length (filter (\<lambda>m. msg_sent m \<noteq> Some True) (drop ?c xs)))"
    if "object_prototype key = None" and "messages st key = Some xs" and "currentUser st = None"
    using count [OF that(1,2)] that(3) by (simp add: isSent_def)
  have b: "unreadCounts st key =
        Some (length (filter (\<lambda>m. msg_from m \<noteq> username cu) (drop ?c xs)))"
    if "object_prototype key = None" and "messages st key = Some xs"
      and "currentUser st = Some cu"
      and flags: "\<forall>m \<in> set xs. msg_sent m = Some True \<longrightarrow> msg_from m = username cu"
  proof -
    have "filter (\<lambda>m. \<not> isSent (currentUser st) m) (drop ?c xs)
        = filter (\<lambda>m. msg_from m \<noteq> username cu) (drop ?c xs)"
    proof (rule filter_cong_set)
      fix x assume "x \<in> set (drop ?c xs)"
      then have "x \<in> set xs" by (rule in_set_dropD)
      with flags that(3) show "(\<not> isSent (currentUser st) x) = (msg_from x \<noteq> username cu)"
        by (auto simp: isSent_def)
    qed
    with count [OF that(1,2)] show ?thesis by simp
  qed
  have c: "messages st key = None \<longrightarrow> unreadCounts st key = None"
    by (simp add: unreadCounts_def)
  have d: "markAsRead st key =
        st\<lparr> lastReadPositions :=
              (lastReadPositions st)(key \<mapsto> Position (length (seq_of (messages st) key))) \<rparr> \<and>
      unreadCounts (markAsRead st key) key =
        (case messages st key of None \<Rightarrow> None | Some ys \<Rightarrow> Some 0)"
    if "object_prototype key = None"
    using that proto_key_not_member [of key]
    by (simp add: markAsRead_def read_length_def seq_of_def unreadCounts_def lastRead_of_def
          unread_in_drop split: option.splits)
  from a a' b c d show ?thesis by blast
qed

theorem unread_derived_witness:
  "object_prototype ''bob'' = None \<and>
   currentUser exchange_state = Some alice \<and>
   messages exchange_state ''bob''
     = Some [local_copy alice ''T0'' ''hi'', stored_copy alice (inbound ''bob'' ''hey'' ''T1'' None)] \<and>
   lastReadPositions exchange_state ''bob'' = None \<and>
   unreadCounts exchange_state ''bob'' = Some 1 \<and>
   lastReadPositions (markAsRead exchange_state ''bob'') ''bob'' = Some (Position 2) \<and>
   unreadCounts (markAsRead exchange_state ''bob'') ''bob'' = Some 0"
proof -
  let ?xs = "[local_copy alice ''T0'' ''hi'', stored_copy alice (inbound ''bob'' ''hey'' ''T1'' None)]"
  have p: "object_prototype ''bob'' = None"
    by (simp add: object_prototype_def)
  have sent: "fst (snd (sendMessage (registerPeer initial_state alice) ''T0'' ''hi'' ''bob'' False
                         (Reply ''success'' None)))
     = (registerPeer initial_state alice)\<lparr> messages := [''bob'' \<mapsto> [local_copy alice ''T0'' ''hi'']] \<rparr>"
    by (simp add: sendMessage_def sendMessage_issue_def sendMessage_settle_def append_local_def p
        registerPeer_def initial_state_def Let_def)
  have ex: "exchange_state = (registerPeer initial_state alice)\<lparr> messages := [''bob'' \<mapsto> ?xs] \<rparr>"
    unfolding exchange_state_def sent
    by (simp add: poll_settle_def merge_message_def target_of_def no_channel_def seq_of_def
        not_found_def inbound_def alice_def local_copy_def same_message_def registerPeer_def)
  have u: "currentUser exchange_state = Some alice"
    unfolding ex by (simp add: registerPeer_def)
  have m: "messages exchange_state ''bob'' = Some ?xs"
    unfolding ex by simp
  have l: "lastReadPositions exchange_state ''bob'' = None"
    unfolding ex by (simp add: registerPeer_def initial_state_def)
  have f: "\<forall>m \<in> set ?xs. msg_sent m = Some True \<longrightarrow> msg_from m = username alice"
    by (simp add: local_copy_def stored_copy_def inbound_def alice_def)
  have n: "length (filter (\<lambda>m. msg_from m \<noteq> username alice) (drop 0 ?xs)) = 1"
    by (simp add: local_copy_def stored_copy_def inbound_def alice_def)
  note spec = unread_derived [of "''bob''" exchange_state ?xs alice]
  from spec p u m f
  have c1: "unreadCounts exchange_state ''bob'' =
      Some (length (filter (\<lambda>m. msg_from m \<noteq> username alice)
         (drop (case lastReadPositions exchange_state ''bob'' of
                  Some (Position n) \<Rightarrow> n | Some Undefined \<Rightarrow> 0 | None \<Rightarrow> 0) ?xs)))"
    by blast
  from spec p
  have c2: "markAsRead exchange_state ''bob'' =
        exchange_state\<lparr> lastReadPositions :=
              (lastReadPositions exchange_state)(''bob'' \<mapsto>
                 Position (length (seq_of (messages exchange_state) ''bob''))) \<rparr>"
    and c3: "unreadCounts (markAsRead exchange_state ''bob'') ''bob'' =
        (case messages exchange_state ''bob'' of None \<Rightarrow> None | Some ys \<Rightarrow> Some 0)"
    by blast+
  have c1': "unreadCounts exchange_state ''bob'' = Some 1"
    using c1 n by (simp add: l)
  have c2': "lastReadPositions (markAsRead exchange_state ''bob'') ''bob'' = Some (Position 2)"
    unfolding c2 by (simp add: seq_of_def m)
  have c3': "unreadCounts (markAsRead exchange_state ''bob'') ''bob'' = Some 0"
    unfolding c3 by (simp add: m)
  from p u m l c1' c2' c3' show ?thesis by blast
qed

text \<open>
  Claim C4, as it is stated, fails.  A poll of alice is in flight when she logs out; bob
  registers, and the reply brings a message that alice sent to a channel.  The callback
  flags it as sent, since its sender is the user that the callback captured, so it does
  not count as unread for bob although bob is not its sender.  And \<open>markAsRead\<close> for the
  key \<open>constructor\<close>, which has no sequence, stores the cursor 1.
\<close>

theorem unread_flag_counterexample:
  "currentUser (provider (run boot
       [Register alice, Tick, Logout, Register bob,
        Arrive 0 (PollReply ''success'' (Some [inbound ''alice'' ''hello'' ''T1'' (Some ''general'')]))
          False])) = Some bob \<and>
   messages (provider (run boot
       [Register alice, Tick, Logout, Register bob,
        Arrive 0 (PollReply ''success'' (Some [inbound ''alice'' ''hello'' ''T1'' (Some ''general'')]))
          False])) ''general''
     = Some [stored_copy alice (inbound ''alice'' ''hello'' ''T1'' (Some ''general''))] \<and>
   lastReadPositions (provider (run boot
       [Register alice, Tick, Logout, Register bob,
        Arrive 0 (PollReply ''success'' (Some [inbound ''alice'' ''hello'' ''T1'' (Some ''general'')]))
          False])) ''general'' = None \<and>
   unreadCounts (provider (run boot
       [Register alice, Tick, Logout, Register bob,
        Arrive 0 (PollReply ''success'' (Some [inbound ''alice'' ''hello'' ''T1'' (Some ''general'')]))
          False])) ''general'' = Some 0 \<and>
   length (filter (\<lambda>m. msg_from m \<noteq> username bob)
      (drop 0 [stored_copy alice (inbound ''alice'' ''hello'' ''T1'' (Some ''general''))])) = 1 \<and>
   seq_of (messages (registerPeer initial_state alice)) ''constructor'' = [] \<and>
   lastReadPositions (markAsRead (registerPeer initial_state alice) ''constructor'') ''constructor''
     = Some (Position 1)"
proof -
  let ?st = "provider (run boot
       [Register alice, Tick, Logout, Register bob,
        Arrive 0 (PollReply ''success'' (Some [inbound ''alice'' ''hello'' ''T1'' (Some ''general'')]))
          False])"
  have st: "?st = \<lparr> currentUser = Some bob, channels = [], peers = [],
       messages = [''general'' \<mapsto> [stored_copy alice (inbound ''alice'' ''hello'' ''T1'' (Some ''general''))]],
       lastReadPositions = Map.empty, typingUsers = Map.empty, messagePollInterval = Some bob \<rparr>"
    by (simp add: run_def boot_def registerPeer_def logout_def initial_state_def poll_settle_def
        merge_message_def target_of_def no_channel_def seq_of_def not_found_def inbound_def
        alice_def)
  have u: "unreadCounts ?st ''general'' = Some 0"
    unfolding st
    by (simp add: unreadCounts_def unread_in_def lastRead_of_def object_prototype_def isSent_def
          stored_copy_def inbound_def alice_def bob_def)
  have n: "length (filter (\<lambda>m. msg_from m \<noteq> username bob)
      (drop 0 [stored_copy alice (inbound ''alice'' ''hello'' ''T1'' (Some ''general''))])) = 1"
    by (simp add: stored_copy_def inbound_def bob_def)
  have c: "seq_of (messages (registerPeer initial_state alice)) ''constructor'' = [] \<and>
   lastReadPositions (markAsRead (registerPeer initial_state alice) ''constructor'') ''constructor''
     = Some (Position 1)"
    by (simp add: markAsRead_def read_length_def object_prototype_def registerPeer_def
          initial_state_def seq_of_def)
  from u n c show ?thesis unfolding st by simp
qed

subsection \<open>Logout and requests in flight\<close>

lemma quiet_step:
  assumes "messagePollInterval (provider w) = None" and "in_flight w = []"
    and "messages (provider w) = Map.empty" and "\<not> is_register e"
  shows "messagePollInterval (provider (step w e)) = None \<and> in_flight (step w e) = [] \<and>
         messages (provider (step w e)) = Map.empty"
  using assms by (cases e) (auto simp: logout_def)

lemma quiet_run:
  assumes "messagePollInterval (provider w) = None" and "in_flight w = []"
    and "messages (provider w) = Map.empty" and "\<forall>e \<in> set evs. \<not> is_register e"
  shows "messagePollInterval (provider (run w evs)) = None \<and> in_flight (run w evs) = [] \<and>
         messages (provider (run w evs)) = Map.empty"
  using assms unfolding run_def
proof (induction evs arbitrary: w)
  case Nil
  then show ?case by simp
next
  case (Cons e evs)
  from Cons.prems have "\<not> is_register e" by simp
  with Cons.prems have "messagePollInterval (provider (step w e)) = None \<and>
      in_flight (step w e) = [] \<and> messages (provider (step w e)) = Map.empty"
    by (simp add: quiet_step)
  with Cons.prems show ?case by (simp add: Cons.IH)
qed

lemma poll_settle_interval:
  "messagePollInterval (fst (poll_settle cu hidden r st)) = messagePollInterval st"
  by (simp add: poll_settle_def split: poll_reply.splits option.splits prod.splits)

lemma timer_off_step:
  assumes "messagePollInterval (provider w) = None" and "\<not> is_register e"
  shows "messagePollInterval (provider (step w e)) = None \<and>
         length (in_flight (step w e)) \<le> length (in_flight w)"
  using assms by (cases e) (auto simp: logout_def poll_settle_interval)

lemma timer_off_run:
  assumes "messagePollInterval (provider w) = None" and "\<forall>e \<in> set evs. \<not> is_register e"
  shows "messagePollInterval (provider (run w evs)) = None \<and>
         length (in_flight (run w evs)) \<le> length (in_flight w)"
  using assms unfolding run_def
proof (induction evs arbitrary: w)
  case Nil
  then show ?case by simp
next
  case (Cons e evs)
  from Cons.prems have e: "\<not> is_register e" and rest: "\<forall>e \<in> set evs. \<not> is_register e"
    by simp_all
  from timer_off_step [OF Cons.prems(1) e]
  have off: "messagePollInterval (provider (step w e)) = None"
    and le: "length (in_flight (step w e)) \<le> length (in_flight w)" by simp_all
  from Cons.IH [OF off rest] le show ?case by simp
qed

text \<open>
  Claim C2, as the source has it.  Logout clears the store and the polling interval.
  Through every sequence of ticks and arrivals after it, until a user is registered
  again, the interval stays cleared and no request is started.  When no request is in
  flight at the moment of logout, the store stays empty as well.
\<close>

theorem logout_stops_polling:
  assumes "in_flight w = []" and "\<forall>e \<in> set evs. \<not> is_register e"
  shows "messages (provider (run (step w Logout) evs)) = Map.empty \<and>
         in_flight (run (step w Logout) evs) = [] \<and>
         messagePollInterval (provider (run (step w Logout) evs)) = None \<and>
         messagePollInterval (provider (run (step w0 Logout) evs)) = None \<and>
         length (in_flight (run (step w0 Logout) evs)) \<le> length (in_flight w0)"
proof -
  from assms(1) have "messagePollInterval (provider (step w Logout)) = None"
    and "in_flight (step w Logout) = []" and "messages (provider (step w Logout)) = Map.empty"
    by (simp_all add: logout_def)
  from quiet_run [OF this assms(2)]
  have quiet: "messages (provider (run (step w Logout) evs)) = Map.empty \<and>
         in_flight (run (step w Logout) evs) = [] \<and>
         messagePollInterval (provider (run (step w Logout) evs)) = None" by simp
  have "messagePollInterval (provider (step w0 Logout)) = None"
    by (simp add: logout_def)
  from timer_off_run [OF this assms(2)]
  have "messagePollInterval (provider (run (step w0 Logout) evs)) = None \<and>
         length (in_flight (run (step w0 Logout) evs)) \<le> length (in_flight w0)" by simp
  with quiet show ?thesis by simp
qed

theorem logout_stops_polling_witness:
  "in_flight (run boot [Register alice, Tick, Arrive 0 PollRejected False]) = [] \<and>
   \<not> is_register Tick \<and>
   \<not> is_register (Arrive 0 (PollReply ''success'' (Some [inbound ''bob'' ''hey'' ''T1'' None])) False) \<and>
   messages (provider (run (step (run boot [Register alice, Tick, Arrive 0 PollRejected False]) Logout)
       [Tick, Arrive 0 (PollReply ''success'' (Some [inbound ''bob'' ''hey'' ''T1'' None])) False]))
     = Map.empty"
  using logout_stops_polling [of "run boot [Register alice, Tick, Arrive 0 PollRejected False]"
      "[Tick, Arrive 0 (PollReply ''success'' (Some [inbound ''bob'' ''hey'' ''T1'' None])) False]"]
  by (simp add: run_def boot_def registerPeer_def initial_state_def poll_settle_def)

text \<open>
  Claim C2, as the specification has it, fails.  A request issued by a tick before the
  logout is still in flight after it; when its reply arrives, the suspended callback
  merges the batch into the store that logout has cleared.
\<close>

theorem logout_in_flight_counterexample:
  "messages (provider (run boot [Register alice, Tick, Logout])) = Map.empty \<and>
   currentUser (provider (run boot [Register alice, Tick, Logout])) = None \<and>
   messages (provider (run boot
      [Register alice, Tick, Logout,
       Arrive 0 (PollReply ''success'' (Some [inbound ''bob'' ''hey'' ''T1'' None])) False])) ''bob''
     = Some [stored_copy alice (inbound ''bob'' ''hey'' ''T1'' None)]"
  by (simp add: run_def boot_def registerPeer_def logout_def initial_state_def poll_settle_def
        merge_message_def target_of_def no_channel_def seq_of_def not_found_def inbound_def
        alice_def)

subsection \<open>Expiry of the typing indicator\<close>



end
